theory Spec2Isabelle
  imports Main
begin

section \<open>JavaScript values used by the page\<close>

text \<open>
  A JavaScript string is a sequence of UTF-16 code units; the regular expressions of
  \<^verbatim>\<open>PlacesHandler.js\<close> carry no \<^verbatim>\<open>u\<close> flag and work on code units. A code unit is
  modelled as a natural number, a string as a list of them, and \<open>js\<close> turns an ASCII
  literal into such a string.
\<close>

type_synonym jsstring = "nat list"

definition js :: "string \<Rightarrow> jsstring" where
  "js s = map of_char s"

text \<open>The values a field of a provider object or a nullable string may hold.\<close>

datatype jsval = Undefined | Null | Str jsstring

text \<open>JavaScript truthiness, as \<^verbatim>\<open>if (v)\<close> and \<^verbatim>\<open>v || w\<close> test it.\<close>

fun truthy :: "jsval \<Rightarrow> bool" where
  "truthy Undefined = False"
| "truthy Null = False"
| "truthy (Str s) = (s \<noteq> [])"

definition js_or :: "jsval \<Rightarrow> jsval \<Rightarrow> jsval" where
  "js_or v w = (if truthy v then v else w)"

text \<open>String conversion inside a template literal \<^verbatim>\<open>`${v}`\<close>.\<close>

fun toString :: "jsval \<Rightarrow> jsstring" where
  "toString Undefined = js ''undefined''"
| "toString Null = js ''null''"
| "toString (Str s) = s"

section \<open>Errors\<close>

text \<open>
  \<open>Error m\<close> is \<^verbatim>\<open>new Error(m)\<close> thrown by the page's own code, \<open>URIError\<close> is what
  \<^verbatim>\<open>decodeURIComponent\<close> throws, and \<open>ProviderError m\<close> is a rejection coming from the
  mapping library (propagated unchanged).
\<close>

datatype error = Error jsstring | URIError | ProviderError jsstring

text \<open>The error kinds of the specification, each with the message the code gives it.\<close>

definition Timeout :: error where
  "Timeout = Error (js ''Timeout loading Google Maps. Please check your API key and try again.'')"

definition LoadFailure :: error where
  "LoadFailure = Error (js ''Failed to load Google Maps script. Check your API key, internet connection, and browser console for details.'')"

definition IncompleteLoad :: error where
  "IncompleteLoad = Error (js ''Google Maps API did not load properly'')"

definition NoResults :: error where
  "NoResults = Error (js ''No results found for the search query'')"

definition AmbiguousDifferentNames :: error where
  "AmbiguousDifferentNames =
     Error (js ''Multiple different businesses found. Please be more specific with your search terms.'')"

text \<open>
  \<^verbatim>\<open>`Multiple locations for "${firstPlaceName}" found. Please include city or address in your search.`\<close>
  (code unit 34 is the double quote).
\<close>

definition AmbiguousSameNameMultipleLocations :: "jsval \<Rightarrow> error" where
  "AmbiguousSameNameMultipleLocations firstPlaceName =
     Error (js ''Multiple locations for '' @ [34] @ toString firstPlaceName @ [34]
            @ js '' found. Please include city or address in your search.'')"

section \<open>Pattern matching on the input\<close>

text \<open>
  Both regular expressions of the handler have the shape
  \<^verbatim>\<open>/[lead]lit([^stop]+)/\<close>: one code unit out of \<open>lead\<close>, the literal \<open>lit\<close>, and a
  greedy group of at least one code unit other than \<open>stop\<close>. \<^verbatim>\<open>String.prototype.match\<close>
  tries the start positions from left to right; the value of the group of the first
  match is returned, \<open>None\<close> when no position matches (\<^verbatim>\<open>null\<close>).
\<close>

fun regex_capture :: "nat list \<Rightarrow> jsstring \<Rightarrow> nat \<Rightarrow> jsstring \<Rightarrow> jsstring option" where
  "regex_capture lead lit stop [] = None"
| "regex_capture lead lit stop (c # cs) =
     (let g = takeWhile (\<lambda>x. x \<noteq> stop) (drop (length lit) cs) in
      if c \<in> set lead \<and> take (length lit) cs = lit \<and> g \<noteq> [] then Some g
      else regex_capture lead lit stop cs)"

text \<open>\<^verbatim>\<open>input.match(/[?&]place_id=([^&]+)/)\<close> and \<^verbatim>\<open>input.match(/[?&]ftid=([^&]+)/)\<close>:
  63 is \<^verbatim>\<open>?\<close>, 38 is \<^verbatim>\<open>&\<close>.\<close>

definition extractPlaceIdFromUrl :: "jsstring \<Rightarrow> jsval" where
  "extractPlaceIdFromUrl input =
     (case regex_capture [63, 38] (js ''place_id='') 38 input of
        Some placeIdMatch \<Rightarrow> Str placeIdMatch
      | None \<Rightarrow>
         (case regex_capture [63, 38] (js ''ftid='') 38 input of
            Some ftidMatch \<Rightarrow> Str ftidMatch
          | None \<Rightarrow> Null))"

section \<open>Percent-decoding\<close>

text \<open>
  \<^verbatim>\<open>decodeURIComponent\<close> is the operation Decode of ECMA-262 with an empty set of
  preserved escapes: a percent sign must be followed by two hexadecimal digits; an octet
  below 128 stands for itself; an octet with 2, 3 or 4 leading one bits starts a UTF-8
  sequence whose continuation octets must be percent-escapes as well, and the sequence
  must be the UTF-8 encoding of a code point (no overlong form, no surrogate, at most
  0x10FFFF), which is emitted as UTF-16. Anything else throws \<open>URIError\<close>.
\<close>

definition hexValue :: "nat \<Rightarrow> nat option" where
  "hexValue c =
     (if 48 \<le> c \<and> c \<le> 57 then Some (c - 48)
      else if 65 \<le> c \<and> c \<le> 70 then Some (c - 55)
      else if 97 \<le> c \<and> c \<le> 102 then Some (c - 87)
      else None)"

fun parseHexOctet :: "jsstring \<Rightarrow> nat option" where
  "parseHexOctet (a # b # rest) =
     (case hexValue a of
        None \<Rightarrow> None
      | Some h \<Rightarrow> (case hexValue b of None \<Rightarrow> None | Some l \<Rightarrow> Some (16 * h + l)))"
| "parseHexOctet s = None"

text \<open>The number of leading one bits of an octet; 5 stands for every number above 4.\<close>

definition leadingOnes :: "nat \<Rightarrow> nat" where
  "leadingOnes B =
     (if B < 128 then 0 else if B < 192 then 1 else if B < 224 then 2
      else if B < 240 then 3 else if B < 248 then 4 else 5)"

text \<open>The next \<open>j\<close> escapes \<^verbatim>\<open>%XY\<close> of the string, as octets.\<close>

fun continuationOctets :: "nat \<Rightarrow> jsstring \<Rightarrow> nat list option" where
  "continuationOctets 0 s = Some []"
| "continuationOctets (Suc j) [] = None"
| "continuationOctets (Suc j) (p # rest) =
     (if p \<noteq> 37 then None
      else (case parseHexOctet rest of
              None \<Rightarrow> None
            | Some B \<Rightarrow>
               (case continuationOctets j (drop 2 rest) of
                  None \<Rightarrow> None
                | Some octs \<Rightarrow> Some (B # octs))))"

text \<open>The code point of a UTF-8 sequence of 2 to 4 octets, \<open>None\<close> when it is not valid.\<close>

definition utf8CodePoint :: "nat list \<Rightarrow> nat option" where
  "utf8CodePoint octets =
     (case octets of
        [] \<Rightarrow> None
      | b # conts \<Rightarrow>
         (let n = length octets;
              v = foldl (\<lambda>acc oct. acc * 64 + (oct - 128)) (b - (if n = 2 then 192 else if n = 3 then 224 else 240)) conts;
              least = (if n = 2 then 128 else if n = 3 then 2048 else 65536)
          in if list_all (\<lambda>oct. 128 \<le> oct \<and> oct < 192) conts \<and> least \<le> v \<and> v \<le> 1114111
                \<and> \<not> (55296 \<le> v \<and> v \<le> 57343)
             then Some v else None))"

definition UTF16EncodeCodePoint :: "nat \<Rightarrow> jsstring" where
  "UTF16EncodeCodePoint v =
     (if v < 65536 then [v]
      else [55296 + (v - 65536) div 1024, 56320 + (v - 65536) mod 1024])"

fun Decode :: "jsstring \<Rightarrow> error + jsstring" where
  "Decode [] = Inr []"
| "Decode (c # cs) =
     (if c \<noteq> 37 then (case Decode cs of Inl e \<Rightarrow> Inl e | Inr r \<Rightarrow> Inr (c # r))
      else (case parseHexOctet cs of
              None \<Rightarrow> Inl URIError
            | Some B \<Rightarrow>
               (if leadingOnes B = 0
                then (case Decode (drop 2 cs) of Inl e \<Rightarrow> Inl e | Inr r \<Rightarrow> Inr (B # r))
                else if leadingOnes B = 1 \<or> leadingOnes B > 4 then Inl URIError
                else (case continuationOctets (leadingOnes B - 1) (drop 2 cs) of
                        None \<Rightarrow> Inl URIError
                      | Some octs \<Rightarrow>
                         (case utf8CodePoint (B # octs) of
                            None \<Rightarrow> Inl URIError
                          | Some v \<Rightarrow>
                             (case Decode (drop (2 + 3 * (leadingOnes B - 1)) cs) of
                                Inl e \<Rightarrow> Inl e
                              | Inr r \<Rightarrow> Inr (UTF16EncodeCodePoint v @ r)))))))"

definition decodeURIComponent :: "jsstring \<Rightarrow> error + jsstring" where
  "decodeURIComponent s = Decode s"

text \<open>
  \<^verbatim>\<open>extractNameFromUrl\<close>: \<^verbatim>\<open>input.match(/\/place\/([^\/]+)/)\<close> (47 is the slash), then
  \<^verbatim>\<open>decodeURIComponent(placeMatch[1].replace(/\+/g, ' '))\<close> (43 is \<^verbatim>\<open>+\<close>, 32 the space).
  The result is the decoded name, \<open>Null\<close> when the pattern does not match, or the
  exception of the decoder.
\<close>

definition replacePlus :: "jsstring \<Rightarrow> jsstring" where
  "replacePlus s = map (\<lambda>c. if c = 43 then 32 else c) s"

definition extractNameFromUrl :: "jsstring \<Rightarrow> error + jsval" where
  "extractNameFromUrl input =
     (case regex_capture [47] (js ''place/'') 47 input of
        Some placeMatch \<Rightarrow>
          (case decodeURIComponent (replacePlus placeMatch) of
             Inl e \<Rightarrow> Inl e
           | Inr name \<Rightarrow> Inr (Str name))
      | None \<Rightarrow> Inr Null)"

section \<open>The mapping provider\<close>

text \<open>
  A place object of the mapping library, with the three fields the handler requests. The
  identifier is assigned by the provider; the display name and the formatted address may
  be absent.
\<close>

record place =
  id_field :: jsstring
  displayName :: jsval
  formattedAddress :: jsval

record request =
  textQuery :: jsstring
  req_fields :: "jsstring list"
  maxResultCount :: nat

text \<open>
  The library is an external service. \<open>importLibrary\<close> is the rejection of
  \<^verbatim>\<open>google.maps.importLibrary("places")\<close> if it rejects; \<open>fetchFields placeId\<close> is the
  place object after \<^verbatim>\<open>new Place({id: placeId, requestedLanguage: 'en'})\<close> and
  \<^verbatim>\<open>fetchFields\<close>, or its rejection; \<open>searchByText\<close> gives the \<^verbatim>\<open>places\<close> member of the
  answer (\<open>None\<close> when it is missing), or the rejection.
\<close>

record provider =
  importLibrary :: "jsstring option"
  fetchFields :: "jsstring \<Rightarrow> jsstring + place"
  searchByText :: "request \<Rightarrow> jsstring + place list option"

text \<open>The calls made to the library, in order.\<close>

datatype call =
    ImportLibrary jsstring
  | FetchFields jsstring jsstring "jsstring list"
  | SearchByText request

definition placeFields :: "jsstring list" where
  "placeFields = [js ''id'', js ''displayName'', js ''formattedAddress'']"

section \<open>PlacesHandler: resolving a place\<close>

text \<open>
  Lines 129 to 154 of \<^verbatim>\<open>searchPlaceByText\<close>: what is thrown or returned for the
  \<^verbatim>\<open>places\<close> of the answer.
\<close>

definition checkPlaces :: "place list option \<Rightarrow> error + place" where
  "checkPlaces places =
     (case places of
        None \<Rightarrow> Inl NoResults
      | Some ps \<Rightarrow>
         (if length ps = 0 then Inl NoResults
          else if length ps > 1 then
            (let firstPlaceName = displayName (hd ps);
                 allSameName = list_all (\<lambda>place. displayName place = firstPlaceName) ps
             in if \<not> allSameName then Inl AmbiguousDifferentNames
                else if length ps > 2 then Inl (AmbiguousSameNameMultipleLocations firstPlaceName)
                else Inr (hd ps))
          else Inr (hd ps)))"

definition searchPlaceByText :: "provider \<Rightarrow> jsstring \<Rightarrow> call list \<times> (error + place)" where
  "searchPlaceByText prov searchQuery =
     (case importLibrary prov of
        Some e \<Rightarrow> ([ImportLibrary (js ''places'')], Inl (ProviderError e))
      | None \<Rightarrow>
         (let req = \<lparr>textQuery = searchQuery, req_fields = placeFields, maxResultCount = 5\<rparr> in
          case searchByText prov req of
            Inl e \<Rightarrow> ([ImportLibrary (js ''places''), SearchByText req], Inl (ProviderError e))
          | Inr places \<Rightarrow> ([ImportLibrary (js ''places''), SearchByText req], checkPlaces places)))"

definition getPlaceById :: "provider \<Rightarrow> jsstring \<Rightarrow> call list \<times> (error + place)" where
  "getPlaceById prov placeId =
     (case importLibrary prov of
        Some e \<Rightarrow> ([ImportLibrary (js ''places'')], Inl (ProviderError e))
      | None \<Rightarrow>
         (case fetchFields prov placeId of
            Inl e \<Rightarrow> ([ImportLibrary (js ''places''), FetchFields placeId (js ''en'') placeFields],
                      Inl (ProviderError e))
          | Inr place \<Rightarrow> ([ImportLibrary (js ''places''), FetchFields placeId (js ''en'') placeFields],
                          Inr place)))"

text \<open>
  The local \<^verbatim>\<open>searchQuery\<close> of \<^verbatim>\<open>searchPlace\<close>:
  \<^verbatim>\<open>this.extractNameFromUrl(input) || input\<close>, or the exception of the extraction.
\<close>

definition searchQuery :: "jsstring \<Rightarrow> error + jsstring" where
  "searchQuery input =
     (case extractNameFromUrl input of
        Inl e \<Rightarrow> Inl e
      | Inr name \<Rightarrow> Inr (toString (js_or name (Str input))))"

definition searchPlace :: "provider \<Rightarrow> jsstring \<Rightarrow> call list \<times> (error + place)" where
  "searchPlace prov input =
     (let extractedPlaceId = extractPlaceIdFromUrl input in
      if truthy extractedPlaceId then getPlaceById prov (toString extractedPlaceId)
      else (case searchQuery input of
              Inl e \<Rightarrow> ([], Inl e)
            | Inr q \<Rightarrow> searchPlaceByText prov q))"

text \<open>
  \<^verbatim>\<open>displayPlaceInfo\<close> of \<^verbatim>\<open>main.js\<close>: the locals \<^verbatim>\<open>placeName\<close> and \<^verbatim>\<open>placeAddress\<close>
  that are rendered.
\<close>

definition placeName :: "place \<Rightarrow> jsval" where
  "placeName place = js_or (displayName place) (Str (js ''N/A''))"

definition placeAddress :: "place \<Rightarrow> jsval" where
  "placeAddress place = js_or (formattedAddress place) (Str (js ''N/A''))"

section \<open>PlacesHandler: loading the script\<close>

text \<open>
  The page state that \<^verbatim>\<open>loadGoogleMaps\<close> and its callbacks read and write. Promises,
  timers and script elements are objects on a heap, referred to by their index. A timer
  and a script element hold the closure of the attempt that created them, which rejects
  the promise of that attempt. \<open>initMap\<close> is the global \<^verbatim>\<open>window.initMap\<close>: the promise
  its closure settles, \<open>None\<close> when the property is not defined. \<open>apiPresent\<close> is the
  test \<^verbatim>\<open>window.google && window.google.maps && window.google.maps.places\<close>.
\<close>

datatype pstate = Pending | Fulfilled | Rejected error

record timer =
  delay :: nat
  t_rejects :: nat
  armed :: bool

record script =
  src :: jsstring
  async_attr :: bool
  defer_attr :: bool
  onerror_rejects :: nat

record page =
  apiPresent :: bool
  mapsLoadingPromise :: "nat option"
  scriptLoadTimeout :: "nat option"
  initMap :: "nat option"
  promises :: "pstate list"
  timers :: "timer list"
  head_scripts :: "script list"

definition initial :: page where
  "initial = \<lparr>apiPresent = False, mapsLoadingPromise = None, scriptLoadTimeout = None,
              initMap = None, promises = [], timers = [], head_scripts = []\<rparr>"

text \<open>\<^verbatim>\<open>resolve()\<close> and \<^verbatim>\<open>reject(e)\<close> of a promise: only a pending promise changes.\<close>

definition settle :: "nat \<Rightarrow> pstate \<Rightarrow> page \<Rightarrow> page" where
  "settle p st s =
     (if p < length (promises s) \<and> promises s ! p = Pending
      then s\<lparr>promises := (promises s)[p := st]\<rparr> else s)"

definition clearTimeout :: "nat option \<Rightarrow> page \<Rightarrow> page" where
  "clearTimeout t s =
     (case t of
        None \<Rightarrow> s
      | Some i \<Rightarrow>
         (if i < length (timers s)
          then s\<lparr>timers := (timers s)[i := (timers s ! i)\<lparr>armed := False\<rparr>]\<rparr> else s))"

definition scriptSrc :: "jsstring \<Rightarrow> jsstring" where
  "scriptSrc apiKey =
     js ''https://maps.googleapis.com/maps/api/js?key='' @ apiKey
       @ js ''&libraries=places&callback=initMap''"

text \<open>The script element of lines 57 to 71; its \<^verbatim>\<open>onerror\<close> handler rejects promise \<open>p\<close>.\<close>

definition scriptElement :: "jsstring \<Rightarrow> nat \<Rightarrow> script" where
  "scriptElement apiKey p =
     \<lparr>src = scriptSrc apiKey, async_attr = True, defer_attr = True, onerror_rejects = p\<rparr>"

text \<open>\<^verbatim>\<open>loadGoogleMaps(apiKey)\<close>: the promise returned and the page afterwards.\<close>

definition loadGoogleMaps :: "jsstring \<Rightarrow> page \<Rightarrow> nat \<times> page" where
  "loadGoogleMaps apiKey s =
     (if apiPresent s then (length (promises s), s\<lparr>promises := promises s @ [Fulfilled]\<rparr>)
      else (case mapsLoadingPromise s of
              Some p \<Rightarrow> (p, s)
            | None \<Rightarrow>
               (let p = length (promises s); t = length (timers s) in
                (p, s\<lparr>promises := promises s @ [Pending],
                      timers := timers s @ [\<lparr>delay = 10000, t_rejects = p, armed = True\<rparr>],
                      scriptLoadTimeout := Some t,
                      initMap := Some p,
                      head_scripts := head_scripts s @ [scriptElement apiKey p],
                      mapsLoadingPromise := Some p\<rparr>))))"

text \<open>
  The callback of timer \<open>t\<close> runs (lines 35 to 39); a timer that is not armed never
  fires.
\<close>

definition timerFires :: "nat \<Rightarrow> page \<Rightarrow> page option" where
  "timerFires t s =
     (if t < length (timers s) \<and> armed (timers s ! t)
      then Some (settle (t_rejects (timers s ! t)) (Rejected Timeout)
                   (s\<lparr>timers := (timers s)[t := (timers s ! t)\<lparr>armed := False\<rparr>],
                      mapsLoadingPromise := None\<rparr>))
      else None)"

text \<open>
  The loaded script calls \<^verbatim>\<open>window.initMap()\<close> (lines 42 to 55); nothing of the page runs
  when the property is not defined.
\<close>

definition initMapCalled :: "page \<Rightarrow> page option" where
  "initMapCalled s =
     (case initMap s of
        None \<Rightarrow> None
      | Some p \<Rightarrow>
         (let s' = (clearTimeout (scriptLoadTimeout s) s)\<lparr>initMap := None\<rparr> in
          Some (if apiPresent s' then settle p Fulfilled s'
                else settle p (Rejected IncompleteLoad) s')))"

text \<open>The \<^verbatim>\<open>onerror\<close> handler of script element \<open>i\<close> runs (lines 66 to 71).\<close>

definition scriptError :: "nat \<Rightarrow> page \<Rightarrow> page option" where
  "scriptError i s =
     (if i < length (head_scripts s)
      then Some (settle (onerror_rejects (head_scripts s ! i)) (Rejected LoadFailure)
                   ((clearTimeout (scriptLoadTimeout s) s)\<lparr>mapsLoadingPromise := None\<rparr>))
      else None)"

text \<open>The events of the page, and the page after a sequence of them.\<close>

datatype event =
    LoadGoogleMaps jsstring
  | TimerFires nat
  | InitMapCalled
  | ScriptError nat
  | ApiLoaded

fun step :: "event \<Rightarrow> page \<Rightarrow> page option" where
  "step (LoadGoogleMaps apiKey) s = Some (snd (loadGoogleMaps apiKey s))"
| "step (TimerFires t) s = timerFires t s"
| "step InitMapCalled s = initMapCalled s"
| "step (ScriptError i) s = scriptError i s"
| "step ApiLoaded s = Some (s\<lparr>apiPresent := True\<rparr>)"

fun run :: "event list \<Rightarrow> page \<Rightarrow> page option" where
  "run [] s = Some s"
| "run (e # es) s = (case step e s of None \<Rightarrow> None | Some s' \<Rightarrow> run es s')"

section \<open>Positions of a pattern in the input\<close>

text \<open>
  What the specification says about a pattern \<^verbatim>\<open>/[lead]lit([^stop]+)/\<close>, by position:
  \<open>spec_match_at\<close> holds at \<open>i\<close> when the input has a code unit of \<open>lead\<close> there,
  followed by \<open>lit\<close> and by at least one code unit other than \<open>stop\<close>;
  \<open>spec_group_at\<close> is the value that starts after \<open>lit\<close> and runs until the next
  \<open>stop\<close> or the end of the input.
\<close>

definition spec_group_at :: "jsstring \<Rightarrow> nat \<Rightarrow> jsstring \<Rightarrow> nat \<Rightarrow> jsstring" where
  "spec_group_at lit stop input i = takeWhile (\<lambda>x. x \<noteq> stop) (drop (Suc i + length lit) input)"

definition spec_match_at :: "nat list \<Rightarrow> jsstring \<Rightarrow> nat \<Rightarrow> jsstring \<Rightarrow> nat \<Rightarrow> bool" where
  "spec_match_at lead lit stop input i \<longleftrightarrow>
     i < length input \<and> input ! i \<in> set lead \<and> take (length lit) (drop (Suc i) input) = lit
     \<and> spec_group_at lit stop input i \<noteq> []"

text \<open>The leftmost position at which the pattern matches, if there is one.\<close>

definition spec_first_match :: "nat list \<Rightarrow> jsstring \<Rightarrow> nat \<Rightarrow> jsstring \<Rightarrow> nat option" where
  "spec_first_match lead lit stop input =
     find (spec_match_at lead lit stop input) [0..<length input]"

section \<open>Example data\<close>

definition starbucks :: place where
  "starbucks = \<lparr>id_field = js ''ChIJ_a'', displayName = Str (js ''Starbucks''),
                 formattedAddress = Str (js ''1 Main St'')\<rparr>"

definition starbucks2 :: place where
  "starbucks2 = \<lparr>id_field = js ''ChIJ_b'', displayName = Str (js ''Starbucks''),
                 formattedAddress = Str (js ''2 Oak Ave'')\<rparr>"

definition unnamed :: place where
  "unnamed = \<lparr>id_field = js ''ChIJ_c'', displayName = Undefined, formattedAddress = Null\<rparr>"

definition answering :: "place list \<Rightarrow> provider" where
  "answering ps = \<lparr>importLibrary = None,
      fetchFields = (\<lambda>i. Inr \<lparr>id_field = i, displayName = Undefined, formattedAddress = Undefined\<rparr>),
      searchByText = (\<lambda>r. Inr (Some ps))\<rparr>"

definition joes_url :: jsstring where
  "joes_url = js ''https://maps.google.com/maps/place/Joe's+Pizza/@40.7,-74.0''"

definition both_url :: jsstring where
  "both_url = js ''https://maps.google.com/?place_id=ChIJ1&ftid=0x2''"

definition ftid_url :: jsstring where
  "ftid_url = js ''https://maps.google.com/?cid=7&ftid=0x2:0x3&hl=en''"

definition empty_segment_url :: jsstring where
  "empty_segment_url = js ''https://maps.google.com/maps/place//@40.7,-74.0''"

definition example_key :: jsstring where
  "example_key = js ''AIzaSyExample''"

text \<open>The page after a successful load with \<open>example_key\<close>.\<close>

definition loaded_page :: page where
  "loaded_page =
     \<lparr>apiPresent = True, mapsLoadingPromise = Some 0, scriptLoadTimeout = Some 0,
      initMap = None, promises = [Fulfilled],
      timers = [\<lparr>delay = 10000, t_rejects = 0, armed = False\<rparr>],
      head_scripts = [scriptElement example_key 0]\<rparr>"

text \<open>The page after the hook ran without the capability.\<close>

definition incomplete_page :: page where
  "incomplete_page =
     \<lparr>apiPresent = False, mapsLoadingPromise = Some 0, scriptLoadTimeout = Some 0,
      initMap = None, promises = [Rejected IncompleteLoad],
      timers = [\<lparr>delay = 10000, t_rejects = 0, armed = False\<rparr>],
      head_scripts = [scriptElement example_key 0]\<rparr>"

text \<open>
  The page after a first attempt that timed out, a second attempt, and the error event of
  the first script element.
\<close>

definition stale_page :: page where
  "stale_page =
     \<lparr>apiPresent = False, mapsLoadingPromise = None, scriptLoadTimeout = Some 1,
      initMap = Some 1, promises = [Rejected Timeout, Pending],
      timers = [\<lparr>delay = 10000, t_rejects = 0, armed = False\<rparr>,
                \<lparr>delay = 10000, t_rejects = 1, armed = False\<rparr>],
      head_scripts = [scriptElement example_key 0, scriptElement example_key 1]\<rparr>"

text \<open>
  Promise \<open>p\<close> exists and has not been rejected with \<open>Timeout\<close>, and no armed timer
  would reject it.
\<close>

definition never_timed_out :: "nat \<Rightarrow> page \<Rightarrow> bool" where
  "never_timed_out p s \<longleftrightarrow>
     p < length (promises s) \<and> promises s ! p \<noteq> Rejected Timeout
     \<and> (\<forall>t<length (timers s). armed (timers s ! t) \<longrightarrow> t_rejects (timers s ! t) \<noteq> p)"


section \<open>The first match of a pattern\<close>

lemma spec_match_at_0:
  "spec_match_at lead lit stop (c # cs) 0 \<longleftrightarrow>
     c \<in> set lead \<and> take (length lit) cs = lit \<and> takeWhile (\<lambda>x. x \<noteq> stop) (drop (length lit) cs) \<noteq> []"
  by (simp add: spec_match_at_def spec_group_at_def)

lemma spec_match_at_Suc:
  "spec_match_at lead lit stop (c # cs) (Suc i) = spec_match_at lead lit stop cs i"
  by (simp add: spec_match_at_def spec_group_at_def)

lemma spec_group_at_0:
  "spec_group_at lit stop (c # cs) 0 = takeWhile (\<lambda>x. x \<noteq> stop) (drop (length lit) cs)"
  by (simp add: spec_group_at_def)

lemma spec_group_at_Suc:
  "spec_group_at lit stop (c # cs) (Suc i) = spec_group_at lit stop cs i"
  by (simp add: spec_group_at_def)

lemma regex_capture_leftmost:
  "spec_match_at lead lit stop s i \<Longrightarrow> (\<forall>j<i. \<not> spec_match_at lead lit stop s j)
     \<Longrightarrow> regex_capture lead lit stop s = Some (spec_group_at lit stop s i)"
proof (induction s arbitrary: i)
  case Nil
  then show ?case by (simp add: spec_match_at_def)
next
  case (Cons c cs)
  show ?case
  proof (cases i)
    case 0
    with Cons.prems(1) show ?thesis
      by (simp add: spec_match_at_0 spec_group_at_0 Let_def)
  next
    case (Suc k)
    from Cons.prems(2) Suc have no0: "\<not> spec_match_at lead lit stop (c # cs) 0" by simp
    from Cons.prems(1) Suc have mk: "spec_match_at lead lit stop cs k"
      by (simp add: spec_match_at_Suc)
    have "\<forall>j<k. \<not> spec_match_at lead lit stop cs j"
    proof (intro allI impI)
      fix j assume "j < k"
      then have "Suc j < i" using Suc by simp
      with Cons.prems(2) have "\<not> spec_match_at lead lit stop (c # cs) (Suc j)" by blast
      then show "\<not> spec_match_at lead lit stop cs j" by (simp add: spec_match_at_Suc)
    qed
    with mk have "regex_capture lead lit stop cs = Some (spec_group_at lit stop cs k)"
      by (rule Cons.IH)
    moreover from no0 have "regex_capture lead lit stop (c # cs) = regex_capture lead lit stop cs"
      by (auto simp add: spec_match_at_0 Let_def)
    ultimately show ?thesis using Suc by (simp add: spec_group_at_Suc)
  qed
qed

lemma regex_capture_none:
  "(\<forall>i<length s. \<not> spec_match_at lead lit stop s i) \<Longrightarrow> regex_capture lead lit stop s = None"
proof (induction s)
  case Nil
  then show ?case by simp
next
  case (Cons c cs)
  from Cons.prems have no0: "\<not> spec_match_at lead lit stop (c # cs) 0" by simp
  have "\<forall>i<length cs. \<not> spec_match_at lead lit stop cs i"
  proof (intro allI impI)
    fix i assume "i < length cs"
    then have "Suc i < length (c # cs)" by simp
    with Cons.prems have "\<not> spec_match_at lead lit stop (c # cs) (Suc i)" by blast
    then show "\<not> spec_match_at lead lit stop cs i" by (simp add: spec_match_at_Suc)
  qed
  then have "regex_capture lead lit stop cs = None" by (rule Cons.IH)
  moreover from no0 have "regex_capture lead lit stop (c # cs) = regex_capture lead lit stop cs"
    by (auto simp add: spec_match_at_0 Let_def)
  ultimately show ?case by simp
qed

lemma regex_capture_nonempty:
  "regex_capture lead lit stop s = Some g \<Longrightarrow> g \<noteq> []"
  by (induction s) (auto simp add: Let_def split: if_splits)

lemma Decode_nonempty:
  "Decode s = Inr r \<Longrightarrow> s \<noteq> [] \<Longrightarrow> r \<noteq> []"
  by (cases s) (auto simp add: UTF16EncodeCodePoint_def split: if_splits sum.splits option.splits)

lemma Decode_no_percent:
  "37 \<notin> set s \<Longrightarrow> Decode s = Inr s"
  by (induction s) auto

lemma regex_capture_spec:
  "regex_capture lead lit stop s
     = map_option (spec_group_at lit stop s) (spec_first_match lead lit stop s)"
proof (cases "spec_first_match lead lit stop s")
  case None
  then have "\<forall>i<length s. \<not> spec_match_at lead lit stop s i"
    by (auto simp add: spec_first_match_def find_None_iff)
  then show ?thesis using None by (simp add: regex_capture_none)
next
  case (Some i)
  then have "spec_match_at lead lit stop s i" and "\<forall>j<i. \<not> spec_match_at lead lit stop s j"
    by (auto simp add: spec_first_match_def find_Some_iff)
  then show ?thesis using Some by (simp add: regex_capture_leftmost)
qed



section \<open>Disambiguation of a text search\<close>

lemma checkPlaces_policy:
  "checkPlaces (Some ps) =
     (if ps = [] then Inl NoResults
      else if length ps = 1 then Inr (hd ps)
      else if (\<exists>p\<in>set ps. displayName p \<noteq> displayName (hd ps)) then Inl AmbiguousDifferentNames
      else if length ps = 2 then Inr (hd ps)
      else Inl (AmbiguousSameNameMultipleLocations (displayName (hd ps))))"
proof (cases ps)
  case Nil
  then show ?thesis by (simp add: checkPlaces_def)
next
  case (Cons p qs)
  show ?thesis
  proof (cases qs)
    case Nil
    with Cons show ?thesis by (simp add: checkPlaces_def)
  next
    case (Cons q rs)
    with \<open>ps = p # qs\<close> show ?thesis
      by (auto simp add: checkPlaces_def Let_def list_all_iff)
  qed
qed

lemma checkPlaces_missing: "checkPlaces None = Inl NoResults"
  by (simp add: checkPlaces_def)

lemma searchPlaceByText_answer:
  assumes "importLibrary prov = None"
    and "searchByText prov \<lparr>textQuery = q, req_fields = placeFields, maxResultCount = 5\<rparr> = Inr places"
  shows "searchPlaceByText prov q =
     ([ImportLibrary (js ''places''),
       SearchByText \<lparr>textQuery = q, req_fields = placeFields, maxResultCount = 5\<rparr>],
      checkPlaces places)"
  using assms by (simp add: searchPlaceByText_def Let_def)

text \<open>
  Claim C1. A text search made by \<open>searchPlace\<close> (no identifier extracted, the library
  answers with \<open>places\<close>) ends as follows, the checks being made in this order: no result
  fails with \<open>NoResults\<close>; exactly one result is returned; if some display name differs
  from the first one the search fails with \<open>AmbiguousDifferentNames\<close>; two results with the
  same display name give the first result; three or more with the same display name fail
  with \<open>AmbiguousSameNameMultipleLocations\<close>.
\<close>

theorem C1_text_search_disambiguation:
  assumes "\<not> truthy (extractPlaceIdFromUrl input)"
    and "searchQuery input = Inr q"
    and "importLibrary prov = None"
    and "searchByText prov \<lparr>textQuery = q, req_fields = placeFields, maxResultCount = 5\<rparr> = Inr places"
  shows "snd (searchPlace prov input) =
     (case places of
        None \<Rightarrow> Inl NoResults
      | Some ps \<Rightarrow>
         (if ps = [] then Inl NoResults
          else if length ps = 1 then Inr (hd ps)
          else if (\<exists>p\<in>set ps. displayName p \<noteq> displayName (hd ps))
            then Inl AmbiguousDifferentNames
          else if length ps = 2 then Inr (hd ps)
          else Inl (AmbiguousSameNameMultipleLocations (displayName (hd ps)))))"
proof -
  have "snd (searchPlace prov input) = checkPlaces places"
    using assms by (simp add: searchPlace_def searchPlaceByText_answer)
  then show ?thesis
    by (cases places) (simp_all only: checkPlaces_missing checkPlaces_policy option.case)
qed

lemma no_id_Starbucks: "\<not> truthy (extractPlaceIdFromUrl (js ''Starbucks''))"
  by (simp add: extractPlaceIdFromUrl_def js_def)

lemma query_Starbucks: "searchQuery (js ''Starbucks'') = Inr (js ''Starbucks'')"
  by (simp add: searchQuery_def extractNameFromUrl_def js_def js_or_def)

theorem C1_text_search_disambiguation_witness:
  "\<not> truthy (extractPlaceIdFromUrl (js ''Starbucks''))
   \<and> searchQuery (js ''Starbucks'') = Inr (js ''Starbucks'')
   \<and> importLibrary (answering [starbucks, starbucks2]) = None
   \<and> searchByText (answering [starbucks, starbucks2])
        \<lparr>textQuery = js ''Starbucks'', req_fields = placeFields, maxResultCount = 5\<rparr>
       = Inr (Some [starbucks, starbucks2])
   \<and> snd (searchPlace (answering [starbucks, starbucks2]) (js ''Starbucks'')) = Inr starbucks"
proof -
  have h3: "importLibrary (answering [starbucks, starbucks2]) = None"
    by (simp add: answering_def)
  have h4: "searchByText (answering [starbucks, starbucks2])
        \<lparr>textQuery = js ''Starbucks'', req_fields = placeFields, maxResultCount = 5\<rparr>
       = Inr (Some [starbucks, starbucks2])"
    by (simp add: answering_def)
  have same: "displayName starbucks2 = displayName starbucks"
    by (simp add: starbucks_def starbucks2_def)
  show ?thesis
    using C1_text_search_disambiguation [OF no_id_Starbucks query_Starbucks h3 h4]
      no_id_Starbucks query_Starbucks h3 h4 same
    by simp
qed

lemma checkPlaces_same_name:
  assumes "3 \<le> length ps" and "\<forall>p\<in>set ps. displayName p = displayName (hd ps)"
  shows "checkPlaces (Some ps) = Inl (AmbiguousSameNameMultipleLocations (displayName (hd ps)))"
proof -
  from assms(1) have "ps \<noteq> []" "length ps \<noteq> 1" "length ps \<noteq> 2" by auto
  moreover from assms(2) have "\<not> (\<exists>p\<in>set ps. displayName p \<noteq> displayName (hd ps))" by blast
  ultimately show ?thesis by (simp only: checkPlaces_policy if_False)
qed

text \<open>
  Claim C8, as amended. When a text search returns three or more results that all have the
  display name of the first one, the search fails with the error whose message quotes that
  display name. The error is this message alone: the number of results is not part of it.
\<close>

theorem C8_same_name_failure_carries_name_only:
  assumes "importLibrary prov = None"
    and "searchByText prov \<lparr>textQuery = q, req_fields = placeFields, maxResultCount = 5\<rparr>
           = Inr (Some ps)"
    and "3 \<le> length ps" and "\<forall>p\<in>set ps. displayName p = displayName (hd ps)"
  shows "snd (searchPlaceByText prov q)
           = Inl (Error (js ''Multiple locations for '' @ [34] @ toString (displayName (hd ps))
                         @ [34] @ js '' found. Please include city or address in your search.''))"
  using assms
  by (simp add: searchPlaceByText_answer checkPlaces_same_name
        AmbiguousSameNameMultipleLocations_def)

theorem C8_same_name_failure_carries_name_only_witness:
  "importLibrary (answering [starbucks, starbucks2, starbucks]) = None
   \<and> searchByText (answering [starbucks, starbucks2, starbucks])
        \<lparr>textQuery = js ''Starbucks'', req_fields = placeFields, maxResultCount = 5\<rparr>
       = Inr (Some [starbucks, starbucks2, starbucks])
   \<and> 3 \<le> length [starbucks, starbucks2, starbucks]
   \<and> displayName starbucks2 = displayName starbucks
   \<and> snd (searchPlaceByText (answering [starbucks, starbucks2, starbucks]) (js ''Starbucks''))
       = Inl (Error (js ''Multiple locations for '' @ [34] @ js ''Starbucks'' @ [34]
                     @ js '' found. Please include city or address in your search.''))"
proof -
  have h1: "importLibrary (answering [starbucks, starbucks2, starbucks]) = None"
    by (simp add: answering_def)
  have h2: "searchByText (answering [starbucks, starbucks2, starbucks])
        \<lparr>textQuery = js ''Starbucks'', req_fields = placeFields, maxResultCount = 5\<rparr>
       = Inr (Some [starbucks, starbucks2, starbucks])"
    by (simp add: answering_def)
  have h3: "3 \<le> length [starbucks, starbucks2, starbucks]" by simp
  have same: "displayName starbucks2 = displayName starbucks"
    by (simp add: starbucks_def starbucks2_def)
  have h4: "\<forall>p\<in>set [starbucks, starbucks2, starbucks].
             displayName p = displayName (hd [starbucks, starbucks2, starbucks])"
    by (simp add: same)
  have n: "toString (displayName starbucks) = js ''Starbucks''"
    by (simp add: starbucks_def)
  from C8_same_name_failure_carries_name_only [OF h1 h2 h3 h4] h1 h2 same n
  show ?thesis by simp
qed

text \<open>
  Claim C8 as stated does not hold: four results named Starbucks fail with an error that
  only quotes the name, and it is the very error that three such results give.
\<close>

theorem C8_counterexample:
  "snd (searchPlaceByText (answering [starbucks, starbucks2, starbucks, starbucks2])
          (js ''Starbucks''))
     = Inl (Error (js ''Multiple locations for '' @ [34] @ js ''Starbucks'' @ [34]
                   @ js '' found. Please include city or address in your search.''))
   \<and> snd (searchPlaceByText (answering [starbucks, starbucks2, starbucks]) (js ''Starbucks''))
     = Inl (Error (js ''Multiple locations for '' @ [34] @ js ''Starbucks'' @ [34]
                   @ js '' found. Please include city or address in your search.''))"
  by (simp add: searchPlaceByText_def answering_def checkPlaces_def starbucks_def
        starbucks2_def AmbiguousSameNameMultipleLocations_def Let_def)

section \<open>Lookup by identifier\<close>

lemma extractPlaceId_place_id:
  assumes "spec_first_match [63, 38] (js ''place_id='') 38 input = Some i"
  shows "extractPlaceIdFromUrl input = Str (spec_group_at (js ''place_id='') 38 input i)"
  using assms by (simp add: extractPlaceIdFromUrl_def regex_capture_spec)

lemma extractPlaceId_ftid:
  assumes "spec_first_match [63, 38] (js ''place_id='') 38 input = None"
    and "spec_first_match [63, 38] (js ''ftid='') 38 input = Some i"
  shows "extractPlaceIdFromUrl input = Str (spec_group_at (js ''ftid='') 38 input i)"
  using assms by (simp add: extractPlaceIdFromUrl_def regex_capture_spec)

lemma spec_first_match_group:
  assumes "spec_first_match lead lit stop input = Some i"
  shows "spec_group_at lit stop input i \<noteq> []"
proof -
  from assms have "spec_match_at lead lit stop input i"
    by (auto simp add: spec_first_match_def find_Some_iff)
  then show ?thesis by (simp add: spec_match_at_def)
qed

lemma getPlaceById_calls: "SearchByText r \<notin> set (fst (getPlaceById prov X))"
  by (simp add: getPlaceById_def split: option.split sum.split)

lemma getPlaceById_errors:
  "snd (getPlaceById prov X) = Inl e \<Longrightarrow> \<exists>m. e = ProviderError m"
  by (auto simp add: getPlaceById_def split: option.splits sum.splits)

text \<open>
  Claim C3, as amended. Let the input have a parameter \<^verbatim>\<open>place_id=\<close> (after \<^verbatim>\<open>?\<close> or
  \<^verbatim>\<open>&\<close>, with a non-empty value), or no such parameter but a parameter \<^verbatim>\<open>ftid=\<close> of
  that form; let \<open>i\<close> be the leftmost position of that parameter and \<open>X\<close> its value,
  running until the next \<^verbatim>\<open>&\<close> or the end of the input. Then \<open>searchPlace\<close> is exactly
  \<open>getPlaceById\<close> called with \<open>X\<close>: no text search is made, and the outcome is none of
  \<open>NoResults\<close>, \<open>AmbiguousDifferentNames\<close>, \<open>AmbiguousSameNameMultipleLocations\<close>.
\<close>

theorem C3_identifier_lookup:
  assumes "(key = js ''place_id='' \<and> spec_first_match [63, 38] (js ''place_id='') 38 input = Some i)
         \<or> (key = js ''ftid='' \<and> spec_first_match [63, 38] (js ''place_id='') 38 input = None
             \<and> spec_first_match [63, 38] (js ''ftid='') 38 input = Some i)"
  shows "searchPlace prov input = getPlaceById prov (spec_group_at key 38 input i)
       \<and> (\<forall>r. SearchByText r \<notin> set (fst (searchPlace prov input)))
       \<and> snd (searchPlace prov input) \<noteq> Inl NoResults
       \<and> snd (searchPlace prov input) \<noteq> Inl AmbiguousDifferentNames
       \<and> (\<forall>name. snd (searchPlace prov input) \<noteq> Inl (AmbiguousSameNameMultipleLocations name))"
proof -
  let ?X = "spec_group_at key 38 input i"
  from assms have ex: "extractPlaceIdFromUrl input = Str ?X"
    by (auto simp add: extractPlaceId_place_id extractPlaceId_ftid)
  from assms have ne: "?X \<noteq> []"
    by (auto dest: spec_first_match_group)
  from ex ne have eq: "searchPlace prov input = getPlaceById prov ?X"
    by (simp add: searchPlace_def)
  have "\<And>e. snd (getPlaceById prov ?X) = Inl e \<Longrightarrow> \<exists>m. e = ProviderError m"
    by (rule getPlaceById_errors)
  then have "snd (getPlaceById prov ?X) \<noteq> Inl NoResults"
    and "snd (getPlaceById prov ?X) \<noteq> Inl AmbiguousDifferentNames"
    and "\<And>name. snd (getPlaceById prov ?X) \<noteq> Inl (AmbiguousSameNameMultipleLocations name)"
    by (auto simp add: NoResults_def AmbiguousDifferentNames_def
          AmbiguousSameNameMultipleLocations_def)
  with eq show ?thesis by (simp add: getPlaceById_calls)
qed

theorem C3_identifier_lookup_witness:
  "spec_first_match [63, 38] (js ''place_id='') 38 ftid_url = None
   \<and> spec_first_match [63, 38] (js ''ftid='') 38 ftid_url = Some 30
   \<and> spec_group_at (js ''ftid='') 38 ftid_url 30 = js ''0x2:0x3''
   \<and> searchPlace (answering []) ftid_url
       = ([ImportLibrary (js ''places''), FetchFields (js ''0x2:0x3'') (js ''en'') placeFields],
          Inr \<lparr>id_field = js ''0x2:0x3'', displayName = Undefined, formattedAddress = Undefined\<rparr>)"
proof -
  have a: "spec_first_match [63, 38] (js ''place_id='') 38 ftid_url = None" by code_simp
  have b: "spec_first_match [63, 38] (js ''ftid='') 38 ftid_url = Some 30" by code_simp
  have c: "spec_group_at (js ''ftid='') 38 ftid_url 30 = js ''0x2:0x3''" by code_simp
  have "searchPlace (answering []) ftid_url = getPlaceById (answering []) (js ''0x2:0x3'')"
    using C3_identifier_lookup [of "js ''ftid=''" ftid_url 30 "answering []"] a b c by simp
  then show ?thesis using a b c by (simp add: getPlaceById_def answering_def)
qed

text \<open>
  Claim C3 as stated does not hold: an input with both parameters contains
  \<^verbatim>\<open>&ftid=0x2\<close>, and the lookup is made with the value of \<^verbatim>\<open>place_id\<close> instead.
\<close>

theorem C3_counterexample:
  "spec_match_at [63, 38] (js ''ftid='') 38 both_url 39
   \<and> spec_group_at (js ''ftid='') 38 both_url 39 = js ''0x2''
   \<and> fst (searchPlace (answering []) both_url)
       = [ImportLibrary (js ''places''), FetchFields (js ''ChIJ1'') (js ''en'') placeFields]
   \<and> js ''ChIJ1'' \<noteq> js ''0x2''"
proof -
  have a: "spec_match_at [63, 38] (js ''ftid='') 38 both_url 39" by code_simp
  have b: "spec_group_at (js ''ftid='') 38 both_url 39 = js ''0x2''" by code_simp
  have c: "extractPlaceIdFromUrl both_url = Str (js ''ChIJ1'')" by code_simp
  have n: "js ''ChIJ1'' \<noteq> []" by (simp add: js_def)
  have d: "js ''ChIJ1'' \<noteq> js ''0x2''" by (simp add: js_def)
  have "searchPlace (answering []) both_url = getPlaceById (answering []) (js ''ChIJ1'')"
    using n by (simp add: searchPlace_def c)
  then show ?thesis using a b d by (simp add: getPlaceById_def answering_def)
qed

section \<open>A malformed escape in the place segment\<close>

text \<open>
  Claim C10. The input \<^verbatim>\<open>/place/%ZZ\<close> has no extractable identifier, and \<open>searchPlace\<close>
  rejects with the \<open>URIError\<close> of the decoder before any call to the library, whatever the
  library would answer; this error is none of the error kinds \<open>Timeout\<close>, \<open>LoadFailure\<close>,
  \<open>IncompleteLoad\<close>, \<open>NoResults\<close>, \<open>AmbiguousDifferentNames\<close>,
  \<open>AmbiguousSameNameMultipleLocations\<close>.
\<close>

theorem C10_malformed_escape_rejects:
  "\<not> truthy (extractPlaceIdFromUrl (js ''/place/%ZZ''))
   \<and> searchPlace prov (js ''/place/%ZZ'') = ([], Inl URIError)
   \<and> URIError \<noteq> Timeout \<and> URIError \<noteq> LoadFailure \<and> URIError \<noteq> IncompleteLoad
   \<and> URIError \<noteq> NoResults \<and> URIError \<noteq> AmbiguousDifferentNames
   \<and> (\<forall>name. URIError \<noteq> AmbiguousSameNameMultipleLocations name)"
proof -
  have ident: "extractPlaceIdFromUrl (js ''/place/%ZZ'') = Null"
    by (simp add: extractPlaceIdFromUrl_def js_def)
  have seg: "regex_capture [47] (js ''place/'') 47 (js ''/place/%ZZ'') = Some (js ''%ZZ'')"
    by (simp add: js_def)
  have dec: "decodeURIComponent (js ''%ZZ'') = Inl URIError"
    by (simp add: decodeURIComponent_def js_def hexValue_def)
  have pl: "replacePlus (js ''%ZZ'') = js ''%ZZ''"
    by (simp add: replacePlus_def js_def)
  have "searchQuery (js ''/place/%ZZ'') = Inl URIError"
    by (simp add: searchQuery_def extractNameFromUrl_def seg pl dec)
  then have "searchPlace prov (js ''/place/%ZZ'') = ([], Inl URIError)"
    by (simp add: searchPlace_def ident)
  then show ?thesis
    by (simp add: ident Timeout_def LoadFailure_def IncompleteLoad_def NoResults_def
          AmbiguousDifferentNames_def AmbiguousSameNameMultipleLocations_def)
qed

section \<open>The search string\<close>

lemma decodeURIComponent_no_escape:
  "37 \<notin> set s \<Longrightarrow> decodeURIComponent s = Inr s"
  by (simp add: decodeURIComponent_def Decode_no_percent)

lemma searchQuery_fallback:
  assumes "spec_first_match [47] (js ''place/'') 47 input = None"
  shows "searchQuery input = Inr input"
  using assms
  by (simp add: searchQuery_def extractNameFromUrl_def regex_capture_spec js_or_def)

lemma searchQuery_segment:
  assumes "spec_first_match [47] (js ''place/'') 47 input = Some i"
    and "decodeURIComponent (replacePlus
           (spec_group_at (js ''place/'') 47 input i)) = Inr q"
  shows "searchQuery input = Inr q"
proof -
  from assms(1) have "spec_group_at (js ''place/'') 47 input i \<noteq> []"
    by (rule spec_first_match_group)
  then have "replacePlus (spec_group_at (js ''place/'') 47 input i) \<noteq> []"
    by (simp add: replacePlus_def)
  with assms(2) have "q \<noteq> []"
    by (auto simp add: decodeURIComponent_def dest: Decode_nonempty)
  with assms show ?thesis
    by (simp add: searchQuery_def extractNameFromUrl_def regex_capture_spec js_or_def)
qed

text \<open>
  Claim C7, as amended. Let the input have no extractable identifier. If no position of
  the input has \<^verbatim>\<open>/place/\<close> followed by a code unit other than the slash, the search
  string is the input as it is. Otherwise let the segment be the code units after the
  leftmost such marker up to the next slash or the end of the input; if decoding the
  segment, with every \<^verbatim>\<open>+\<close> replaced by a space, succeeds with \<open>q\<close>, the search string
  is \<open>q\<close>. In both cases \<open>searchPlace\<close> is the text search for that string.
\<close>

theorem C7_search_string:
  assumes "\<not> truthy (extractPlaceIdFromUrl input)"
    and "(spec_first_match [47] (js ''place/'') 47 input = None \<and> q = input)
       \<or> (\<exists>i. spec_first_match [47] (js ''place/'') 47 input = Some i
              \<and> decodeURIComponent (replacePlus
                    (spec_group_at (js ''place/'') 47 input i)) = Inr q)"
  shows "searchQuery input = Inr q \<and> searchPlace prov input = searchPlaceByText prov q"
proof -
  from assms(2) have "searchQuery input = Inr q"
    by (auto simp add: searchQuery_fallback searchQuery_segment)
  with assms(1) show ?thesis by (simp add: searchPlace_def)
qed

theorem C7_search_string_witness:
  "\<not> truthy (extractPlaceIdFromUrl joes_url)
   \<and> spec_first_match [47] (js ''place/'') 47 joes_url = Some 28
   \<and> spec_group_at (js ''place/'') 47 joes_url 28 = js ''Joe's+Pizza''
   \<and> decodeURIComponent (replacePlus (js ''Joe's+Pizza''))
       = Inr (js ''Joe's Pizza'')
   \<and> searchQuery joes_url = Inr (js ''Joe's Pizza'')
   \<and> searchPlace (answering [starbucks]) joes_url
       = searchPlaceByText (answering [starbucks]) (js ''Joe's Pizza'')"
proof -
  have a: "\<not> truthy (extractPlaceIdFromUrl joes_url)" by code_simp
  have b: "spec_first_match [47] (js ''place/'') 47 joes_url = Some 28" by code_simp
  have c: "spec_group_at (js ''place/'') 47 joes_url 28 = js ''Joe's+Pizza''" by code_simp
  have d: "decodeURIComponent (replacePlus (js ''Joe's+Pizza''))
       = Inr (js ''Joe's Pizza'')" by code_simp
  have "(spec_first_match [47] (js ''place/'') 47 joes_url = None \<and> js ''Joe's Pizza'' = joes_url)
       \<or> (\<exists>i. spec_first_match [47] (js ''place/'') 47 joes_url = Some i
              \<and> decodeURIComponent (replacePlus
                    (spec_group_at (js ''place/'') 47 joes_url i)) = Inr (js ''Joe's Pizza''))"
    using b c d by simp
  from C7_search_string [OF a this, of "answering [starbucks]"] a b c d
  show ?thesis by simp
qed

text \<open>
  Claim C7 as stated does not hold: an input with the marker \<^verbatim>\<open>/place/\<close> followed at once
  by a slash has an empty segment, and the search string is the whole input.
\<close>

theorem C7_counterexample:
  "\<not> truthy (extractPlaceIdFromUrl empty_segment_url)
   \<and> take 7 (drop 28 empty_segment_url) = js ''/place/''
   \<and> spec_group_at (js ''place/'') 47 empty_segment_url 28 = []
   \<and> searchQuery empty_segment_url = Inr empty_segment_url
   \<and> empty_segment_url \<noteq> []"
  by code_simp

section \<open>The record that is returned and what is rendered\<close>

lemma placeName_cases:
  "placeName p = (if truthy (displayName p) then displayName p else Str (js ''N/A''))"
  by (simp add: placeName_def js_or_def)

lemma truthy_Str: "truthy v \<Longrightarrow> \<exists>s. v = Str s \<and> s \<noteq> []"
  by (cases v) auto

lemma getPlaceById_result:
  "snd (getPlaceById prov X) = Inr p \<Longrightarrow> fetchFields prov X = Inr p"
  by (auto simp add: getPlaceById_def split: option.splits sum.splits)

lemma checkPlaces_result:
  "checkPlaces places = Inr p \<Longrightarrow> \<exists>ps. places = Some ps \<and> ps \<noteq> [] \<and> p = hd ps"
  by (auto simp add: checkPlaces_def Let_def split: option.splits if_splits)

lemma searchPlaceByText_result:
  "snd (searchPlaceByText prov q) = Inr p
     \<Longrightarrow> \<exists>ps. searchByText prov \<lparr>textQuery = q, req_fields = placeFields, maxResultCount = 5\<rparr>
                 = Inr (Some ps) \<and> ps \<noteq> [] \<and> p = hd ps"
  by (auto simp add: searchPlaceByText_def Let_def split: option.splits sum.splits
        dest: checkPlaces_result)

text \<open>
  Claim C9, as amended. A record returned by \<open>searchPlace\<close> is the record of the library,
  unchanged: the place fetched by identifier, or the first result of the text search. The
  name and the address that \<^verbatim>\<open>displayPlaceInfo\<close> renders are the library's value when that
  is a non-empty string and \<^verbatim>\<open>N/A\<close> otherwise, so what is rendered is never absent.
\<close>

theorem C9_record_is_the_providers:
  assumes "snd (searchPlace prov input) = Inr p"
  shows "((\<exists>X. fetchFields prov X = Inr p)
          \<or> (\<exists>req ps. searchByText prov req = Inr (Some ps) \<and> ps \<noteq> [] \<and> p = hd ps))
       \<and> placeName p = (if truthy (displayName p) then displayName p else Str (js ''N/A''))
       \<and> placeAddress p = (if truthy (formattedAddress p) then formattedAddress p else Str (js ''N/A''))
       \<and> (\<exists>s. placeName p = Str s \<and> s \<noteq> [])
       \<and> (\<exists>s. placeAddress p = Str s \<and> s \<noteq> [])"
proof -
  have na: "js ''N/A'' \<noteq> []" by (simp add: js_def)
  have src: "(\<exists>X. fetchFields prov X = Inr p)
          \<or> (\<exists>req ps. searchByText prov req = Inr (Some ps) \<and> ps \<noteq> [] \<and> p = hd ps)"
  proof (cases "truthy (extractPlaceIdFromUrl input)")
    case True
    with assms have "snd (getPlaceById prov (toString (extractPlaceIdFromUrl input))) = Inr p"
      by (simp add: searchPlace_def)
    then show ?thesis by (blast dest: getPlaceById_result)
  next
    case False
    with assms obtain q where "snd (searchPlaceByText prov q) = Inr p"
      by (auto simp add: searchPlace_def split: sum.splits)
    then show ?thesis by (blast dest: searchPlaceByText_result)
  qed
  have n: "\<exists>s. placeName p = Str s \<and> s \<noteq> []"
    using na by (cases "truthy (displayName p)") (auto simp add: placeName_def js_or_def dest: truthy_Str)
  have a: "\<exists>s. placeAddress p = Str s \<and> s \<noteq> []"
    using na by (cases "truthy (formattedAddress p)") (auto simp add: placeAddress_def js_or_def dest: truthy_Str)
  from src n a show ?thesis by (simp add: placeName_def placeAddress_def js_or_def)
qed

text \<open>
  Claim C9 as stated does not hold: for a single result without display name and address,
  \<open>searchPlace\<close> returns the record with both fields absent.
\<close>

theorem C9_counterexample:
  "snd (searchPlace (answering [unnamed]) (js ''Cafe'')) = Inr unnamed
   \<and> displayName unnamed = Undefined \<and> formattedAddress unnamed = Null"
  by code_simp

theorem C9_record_is_the_providers_witness:
  "snd (searchPlace (answering [unnamed]) (js ''Cafe'')) = Inr unnamed
   \<and> searchByText (answering [unnamed]) \<lparr>textQuery = js ''Cafe'', req_fields = placeFields, maxResultCount = 5\<rparr>
       = Inr (Some [unnamed])
   \<and> placeName unnamed = Str (js ''N/A'') \<and> placeAddress unnamed = Str (js ''N/A'')"
proof -
  have h: "snd (searchPlace (answering [unnamed]) (js ''Cafe'')) = Inr unnamed" by code_simp
  have d: "displayName unnamed = Undefined" "formattedAddress unnamed = Null"
    by (simp_all add: unnamed_def)
  from C9_record_is_the_providers [OF h] h d show ?thesis
    by (simp add: answering_def)
qed

section \<open>Loading the script\<close>

text \<open>
  While the capability is absent and a promise is stored, a call returns the stored
  promise and changes nothing: no timer, no hook, no script element.
\<close>

lemma loadGoogleMaps_while_loading:
  "\<not> apiPresent s \<Longrightarrow> mapsLoadingPromise s = Some p \<Longrightarrow> loadGoogleMaps k s = (p, s)"
  by (simp add: loadGoogleMaps_def)

lemma loadGoogleMaps_starts_attempt:
  assumes "\<not> apiPresent s" and "mapsLoadingPromise s = None"
  shows "loadGoogleMaps k s =
     (length (promises s),
      s\<lparr>promises := promises s @ [Pending],
        timers := timers s @ [\<lparr>delay = 10000, t_rejects = length (promises s), armed = True\<rparr>],
        scriptLoadTimeout := Some (length (timers s)),
        initMap := Some (length (promises s)),
        head_scripts := head_scripts s @ [scriptElement k (length (promises s))],
        mapsLoadingPromise := Some (length (promises s))\<rparr>)"
  using assms by (simp add: loadGoogleMaps_def Let_def)

lemma run_successful_load:
  "run [LoadGoogleMaps example_key, ApiLoaded, InitMapCalled] initial = Some loaded_page"
  by (simp add: initial_def loaded_page_def loadGoogleMaps_def initMapCalled_def
        clearTimeout_def settle_def scriptElement_def Let_def)

text \<open>
  Claim C6. When the capability is present, \<open>loadGoogleMaps\<close> returns a promise that is
  already fulfilled and issues no request: the page is unchanged but for that new promise
  (same script elements, timers and hook), and the capability is still present, so the same
  holds for every later call.
\<close>

theorem C6_already_loaded:
  assumes "apiPresent s"
  shows "snd (loadGoogleMaps k s) = s\<lparr>promises := promises s @ [Fulfilled]\<rparr>
       \<and> promises (snd (loadGoogleMaps k s)) ! fst (loadGoogleMaps k s) = Fulfilled
       \<and> head_scripts (snd (loadGoogleMaps k s)) = head_scripts s
       \<and> timers (snd (loadGoogleMaps k s)) = timers s
       \<and> initMap (snd (loadGoogleMaps k s)) = initMap s
       \<and> apiPresent (snd (loadGoogleMaps k s))"
  using assms by (simp add: loadGoogleMaps_def)

theorem C6_already_loaded_witness:
  "run [LoadGoogleMaps example_key, ApiLoaded, InitMapCalled] initial = Some loaded_page
   \<and> apiPresent loaded_page
   \<and> snd (loadGoogleMaps example_key loaded_page) = loaded_page\<lparr>promises := [Fulfilled, Fulfilled]\<rparr>
   \<and> promises (snd (loadGoogleMaps example_key loaded_page))
         ! fst (loadGoogleMaps example_key loaded_page) = Fulfilled
   \<and> head_scripts (snd (loadGoogleMaps example_key loaded_page)) = [scriptElement example_key 0]"
proof -
  have a: "apiPresent loaded_page" by (simp add: loaded_page_def)
  have p: "promises loaded_page = [Fulfilled]" by (simp add: loaded_page_def)
  have h: "head_scripts loaded_page = [scriptElement example_key 0]" by (simp add: loaded_page_def)
  from C6_already_loaded [OF a, of example_key]
  have x: "snd (loadGoogleMaps example_key loaded_page)
             = loaded_page\<lparr>promises := promises loaded_page @ [Fulfilled]\<rparr>"
    and y: "promises (snd (loadGoogleMaps example_key loaded_page))
              ! fst (loadGoogleMaps example_key loaded_page) = Fulfilled"
    and z: "head_scripts (snd (loadGoogleMaps example_key loaded_page)) = head_scripts loaded_page"
    by blast+
  from x p have x': "snd (loadGoogleMaps example_key loaded_page)
             = loaded_page\<lparr>promises := [Fulfilled, Fulfilled]\<rparr>"
    by simp
  from z h have z': "head_scripts (snd (loadGoogleMaps example_key loaded_page))
             = [scriptElement example_key 0]"
    by simp
  from run_successful_load a x' y z' show ?thesis by blast
qed

text \<open>
  A call that starts a load attempt (capability absent, no promise stored) arms a timer
  of 10000 ms for the pending promise it returns; further calls return that promise and
  change nothing. If the timer fires in that state, the promise is rejected with
  \<open>Timeout\<close>, the stored promise is cleared, and the next call starts another attempt.
\<close>

lemma timeout_right_after_call:
  assumes "\<not> apiPresent s" and "mapsLoadingPromise s = None"
    and "loadGoogleMaps k s = (p, s1)"
  shows "promises s1 ! p = Pending
       \<and> scriptLoadTimeout s1 = Some (length (timers s))
       \<and> timers s1 ! length (timers s) = \<lparr>delay = 10000, t_rejects = p, armed = True\<rparr>
       \<and> loadGoogleMaps k' s1 = (p, s1)
       \<and> (\<exists>s2. timerFires (length (timers s)) s1 = Some s2
              \<and> promises s2 ! p = Rejected Timeout
              \<and> mapsLoadingPromise s2 = None
              \<and> (\<exists>p' s3. loadGoogleMaps k' s2 = (p', s3) \<and> p' \<noteq> p
                    \<and> promises s3 ! p' = Pending
                    \<and> promises s3 ! p = Rejected Timeout
                    \<and> head_scripts s3 = head_scripts s1 @ [scriptElement k' p']))"
proof -
  let ?t = "length (timers s)"
  from assms have p: "p = length (promises s)"
    and s1: "s1 = s\<lparr>promises := promises s @ [Pending],
        timers := timers s @ [\<lparr>delay = 10000, t_rejects = length (promises s), armed = True\<rparr>],
        scriptLoadTimeout := Some (length (timers s)),
        initMap := Some (length (promises s)),
        head_scripts := head_scripts s @ [scriptElement k (length (promises s))],
        mapsLoadingPromise := Some (length (promises s))\<rparr>"
    by (auto simp add: loadGoogleMaps_starts_attempt)
  have a: "promises s1 ! p = Pending" by (simp add: s1 p)
  have b: "scriptLoadTimeout s1 = Some ?t" by (simp add: s1)
  have c: "timers s1 ! ?t = \<lparr>delay = 10000, t_rejects = p, armed = True\<rparr>" by (simp add: s1 p)
  have d: "loadGoogleMaps k' s1 = (p, s1)"
    using assms(1) by (simp add: loadGoogleMaps_while_loading s1 p)
  define s2 where "s2 = s1\<lparr>timers := (timers s1)[?t := (timers s1 ! ?t)\<lparr>armed := False\<rparr>],
                      mapsLoadingPromise := None,
                      promises := (promises s1)[p := Rejected Timeout]\<rparr>"
  have e: "timerFires ?t s1 = Some s2"
    by (simp add: timerFires_def settle_def s2_def s1 p)
  have f: "promises s2 ! p = Rejected Timeout" by (simp add: s2_def s1 p)
  have g: "mapsLoadingPromise s2 = None" "\<not> apiPresent s2"
    using assms(1) by (simp_all add: s2_def s1)
  have lp: "length (promises s2) = Suc p" by (simp add: s2_def s1 p)
  have hs: "head_scripts s2 = head_scripts s1" by (simp add: s2_def)
  obtain p' s3 where h: "loadGoogleMaps k' s2 = (p', s3)" by (cases "loadGoogleMaps k' s2")
  with g lp have p': "p' = Suc p"
    and s3p: "promises s3 = promises s2 @ [Pending]"
    and s3h: "head_scripts s3 = head_scripts s2 @ [scriptElement k' p']"
    by (auto simp add: loadGoogleMaps_starts_attempt)
  have i: "promises s3 ! p' = Pending" using lp by (simp add: s3p p' nth_append)
  have j: "promises s3 ! p = Rejected Timeout" using lp f by (simp add: s3p nth_append)
  from a b c d e f g h p' i j s3h hs show ?thesis by auto
qed

text \<open>
  Claim C4 asks that every failure path clears the stored promise and removes the hook.
  The code at three inputs: after a timeout and after a script error the stored promise is
  cleared and the hook \<^verbatim>\<open>window.initMap\<close> is still installed; after the hook ran without
  the capability the hook is removed and the rejected promise is still stored, so that the
  next call returns it and starts no attempt.
\<close>

theorem C4_failure_paths:
  "run [LoadGoogleMaps example_key, TimerFires 0] initial
     = Some \<lparr>apiPresent = False, mapsLoadingPromise = None, scriptLoadTimeout = Some 0,
             initMap = Some 0, promises = [Rejected Timeout],
             timers = [\<lparr>delay = 10000, t_rejects = 0, armed = False\<rparr>],
             head_scripts = [scriptElement example_key 0]\<rparr>
   \<and> run [LoadGoogleMaps example_key, ScriptError 0] initial
     = Some \<lparr>apiPresent = False, mapsLoadingPromise = None, scriptLoadTimeout = Some 0,
             initMap = Some 0, promises = [Rejected LoadFailure],
             timers = [\<lparr>delay = 10000, t_rejects = 0, armed = False\<rparr>],
             head_scripts = [scriptElement example_key 0]\<rparr>
   \<and> run [LoadGoogleMaps example_key, InitMapCalled] initial = Some incomplete_page
   \<and> mapsLoadingPromise incomplete_page = Some 0
   \<and> promises incomplete_page ! 0 = Rejected IncompleteLoad
   \<and> loadGoogleMaps example_key incomplete_page = (0, incomplete_page)"
  by (simp add: initial_def incomplete_page_def loadGoogleMaps_def timerFires_def
        scriptError_def initMapCalled_def clearTimeout_def settle_def scriptElement_def Let_def)

text \<open>
  Claim C2 asks that at most one load attempt is in flight and that callers during an
  attempt share its promise. The code at the input: first attempt, its timer fires, second
  attempt, then the \<^verbatim>\<open>onerror\<close> handler of the first script element runs. The handler
  disarms the timer of the second attempt and clears the stored promise while the promise
  of the second attempt is pending; the next call starts a third attempt with a third
  script element and another pending promise.
\<close>

theorem C2_stale_error_handler:
  "run [LoadGoogleMaps example_key, TimerFires 0, LoadGoogleMaps example_key, ScriptError 0]
       initial = Some stale_page
   \<and> promises stale_page ! 1 = Pending
   \<and> loadGoogleMaps example_key stale_page
       = (2, \<lparr>apiPresent = False, mapsLoadingPromise = Some 2, scriptLoadTimeout = Some 2,
               initMap = Some 2, promises = [Rejected Timeout, Pending, Pending],
               timers = [\<lparr>delay = 10000, t_rejects = 0, armed = False\<rparr>,
                         \<lparr>delay = 10000, t_rejects = 1, armed = False\<rparr>,
                         \<lparr>delay = 10000, t_rejects = 2, armed = True\<rparr>],
               head_scripts = [scriptElement example_key 0, scriptElement example_key 1,
                               scriptElement example_key 2]\<rparr>)"
  by (simp add: initial_def stale_page_def loadGoogleMaps_def timerFires_def scriptError_def
        clearTimeout_def settle_def scriptElement_def Let_def)

text \<open>
  The timers of the page only ever get disarmed, and a new timer rejects a new promise:
  once no armed timer rejects promise \<open>p\<close>, no later event rejects it with \<open>Timeout\<close>.
\<close>

lemma settle_simps:
  "length (promises (settle q st s)) = length (promises s)"
  "timers (settle q st s) = timers s"
  "p < length (promises s) \<Longrightarrow>
     promises (settle q st s) ! p = (if q = p \<and> promises s ! p = Pending then st else promises s ! p)"
  by (auto simp add: settle_def nth_list_update)

lemma clearTimeout_simps:
  "promises (clearTimeout t s) = promises s"
  "length (timers (clearTimeout t s)) = length (timers s)"
  "i < length (timers s) \<Longrightarrow> armed (timers (clearTimeout t s) ! i) \<Longrightarrow> armed (timers s ! i)"
  "i < length (timers s) \<Longrightarrow> t_rejects (timers (clearTimeout t s) ! i) = t_rejects (timers s ! i)"
  by (auto simp add: clearTimeout_def nth_list_update split: option.splits if_splits)

lemma error_kinds_differ:
  "IncompleteLoad \<noteq> Timeout" "LoadFailure \<noteq> Timeout"
  by (simp_all add: IncompleteLoad_def LoadFailure_def Timeout_def js_def)

lemma never_timed_out_load:
  assumes "never_timed_out p s"
  shows "never_timed_out p (snd (loadGoogleMaps k s))"
  using assms
  by (auto simp add: never_timed_out_def loadGoogleMaps_def Let_def nth_append
        split: option.splits)

lemma never_timed_out_timer:
  assumes "never_timed_out p s" and "timerFires t s = Some s'"
  shows "never_timed_out p s'"
  using assms
  by (auto simp add: never_timed_out_def timerFires_def settle_simps nth_list_update
        split: if_splits)

lemma never_timed_out_settle:
  assumes "never_timed_out p s" and "st \<noteq> Rejected Timeout"
  shows "never_timed_out p (settle q st s)"
  using assms by (simp add: never_timed_out_def settle_simps)

lemma never_timed_out_clearTimeout:
  assumes "never_timed_out p s"
  shows "never_timed_out p (clearTimeout t s)"
  unfolding never_timed_out_def
proof (intro conjI allI impI)
  from assms show "p < length (promises (clearTimeout t s))"
    by (simp add: never_timed_out_def clearTimeout_simps)
  from assms show "promises (clearTimeout t s) ! p \<noteq> Rejected Timeout"
    by (simp add: never_timed_out_def clearTimeout_simps)
next
  fix i
  assume i: "i < length (timers (clearTimeout t s))"
    and a: "armed (timers (clearTimeout t s) ! i)"
  from i have i': "i < length (timers s)" by (simp add: clearTimeout_simps)
  from i' a have "armed (timers s ! i)" by (rule clearTimeout_simps(3))
  with assms i' have "t_rejects (timers s ! i) \<noteq> p" by (simp add: never_timed_out_def)
  with i' show "t_rejects (timers (clearTimeout t s) ! i) \<noteq> p"
    by (simp add: clearTimeout_simps)
qed

lemma never_timed_out_fields:
  "never_timed_out p (s\<lparr>initMap := h\<rparr>) = never_timed_out p s"
  "never_timed_out p (s\<lparr>mapsLoadingPromise := m\<rparr>) = never_timed_out p s"
  "never_timed_out p (s\<lparr>apiPresent := b\<rparr>) = never_timed_out p s"
  by (simp_all add: never_timed_out_def)

lemma never_timed_out_initMap:
  assumes "never_timed_out p s" and "initMapCalled s = Some s'"
  shows "never_timed_out p s'"
proof -
  from assms(2) obtain q where s':
    "s' = (if apiPresent ((clearTimeout (scriptLoadTimeout s) s)\<lparr>initMap := None\<rparr>)
           then settle q Fulfilled ((clearTimeout (scriptLoadTimeout s) s)\<lparr>initMap := None\<rparr>)
           else settle q (Rejected IncompleteLoad)
                  ((clearTimeout (scriptLoadTimeout s) s)\<lparr>initMap := None\<rparr>))"
    by (auto simp add: initMapCalled_def Let_def split: option.splits)
  from assms(1) have "never_timed_out p ((clearTimeout (scriptLoadTimeout s) s)\<lparr>initMap := None\<rparr>)"
    by (simp add: never_timed_out_fields never_timed_out_clearTimeout)
  then show ?thesis
    unfolding s' by (simp add: never_timed_out_settle error_kinds_differ)
qed

lemma never_timed_out_scriptError:
  assumes "never_timed_out p s" and "scriptError i s = Some s'"
  shows "never_timed_out p s'"
proof -
  from assms(2) have s':
    "s' = settle (onerror_rejects (head_scripts s ! i)) (Rejected LoadFailure)
            ((clearTimeout (scriptLoadTimeout s) s)\<lparr>mapsLoadingPromise := None\<rparr>)"
    by (auto simp add: scriptError_def split: if_splits)
  from assms(1)
  have "never_timed_out p ((clearTimeout (scriptLoadTimeout s) s)\<lparr>mapsLoadingPromise := None\<rparr>)"
    by (simp add: never_timed_out_fields never_timed_out_clearTimeout)
  then show ?thesis
    unfolding s' by (simp add: never_timed_out_settle error_kinds_differ)
qed

lemma never_timed_out_step:
  assumes "never_timed_out p s" and "step e s = Some s'"
  shows "never_timed_out p s'"
proof (cases e)
  case (LoadGoogleMaps k)
  with assms show ?thesis by (auto simp add: never_timed_out_load)
next
  case (TimerFires t)
  with assms show ?thesis by (auto intro: never_timed_out_timer)
next
  case InitMapCalled
  with assms show ?thesis by (auto intro: never_timed_out_initMap)
next
  case (ScriptError i)
  with assms show ?thesis by (auto intro: never_timed_out_scriptError)
next
  case ApiLoaded
  with assms show ?thesis by (auto simp add: never_timed_out_fields)
qed

lemma never_timed_out_run:
  "never_timed_out p s \<Longrightarrow> run es s = Some s' \<Longrightarrow> never_timed_out p s'"
proof (induction es arbitrary: s)
  case Nil
  then show ?case by simp
next
  case (Cons e es)
  then show ?case
    by (auto split: option.splits dest: never_timed_out_step)
qed

text \<open>After the stale error event the second attempt can no longer time out.\<close>

lemma never_timed_out_stale_page: "never_timed_out 1 stale_page"
  by (auto simp add: never_timed_out_def stale_page_def less_Suc_eq numeral_2_eq_2)

lemma stale_attempt_never_times_out:
  "run es stale_page = Some s \<Longrightarrow> promises s ! 1 \<noteq> Rejected Timeout"
  using never_timed_out_run [OF never_timed_out_stale_page] by (simp add: never_timed_out_def)

text \<open>
  Claim C5 asks that the timer rejects every load attempt whose hook is never called. The
  code at the input: first attempt, its timer fires, second attempt, then the
  \<^verbatim>\<open>onerror\<close> handler of the first script element runs. The second attempt starts with
  an armed timer of 10000 ms for its pending promise; the handler disarms that timer. The
  hook has not been called and the promise is still pending, and no timer of the page can
  fire any more.
\<close>

theorem C5_stale_handler_disarms_timer:
  "run [LoadGoogleMaps example_key, TimerFires 0, LoadGoogleMaps example_key] initial
     = Some \<lparr>apiPresent = False, mapsLoadingPromise = Some 1, scriptLoadTimeout = Some 1,
             initMap = Some 1, promises = [Rejected Timeout, Pending],
             timers = [\<lparr>delay = 10000, t_rejects = 0, armed = False\<rparr>,
                       \<lparr>delay = 10000, t_rejects = 1, armed = True\<rparr>],
             head_scripts = [scriptElement example_key 0, scriptElement example_key 1]\<rparr>
   \<and> run [LoadGoogleMaps example_key, TimerFires 0, LoadGoogleMaps example_key, ScriptError 0]
         initial = Some stale_page
   \<and> promises stale_page ! 1 = Pending
   \<and> initMap stale_page = Some 1
   \<and> map armed (timers stale_page) = [False, False]
   \<and> (\<forall>t. timerFires t stale_page = None)"
proof -
  have a: "run [LoadGoogleMaps example_key, TimerFires 0, LoadGoogleMaps example_key] initial
     = Some \<lparr>apiPresent = False, mapsLoadingPromise = Some 1, scriptLoadTimeout = Some 1,
             initMap = Some 1, promises = [Rejected Timeout, Pending],
             timers = [\<lparr>delay = 10000, t_rejects = 0, armed = False\<rparr>,
                       \<lparr>delay = 10000, t_rejects = 1, armed = True\<rparr>],
             head_scripts = [scriptElement example_key 0, scriptElement example_key 1]\<rparr>"
    by (simp add: initial_def loadGoogleMaps_def timerFires_def settle_def
          scriptElement_def Let_def)
  have b: "run [LoadGoogleMaps example_key, TimerFires 0, LoadGoogleMaps example_key, ScriptError 0]
         initial = Some stale_page"
    by (simp add: initial_def stale_page_def loadGoogleMaps_def timerFires_def scriptError_def
          clearTimeout_def settle_def scriptElement_def Let_def)
  have c: "promises stale_page ! 1 = Pending" "initMap stale_page = Some 1"
    "map armed (timers stale_page) = [False, False]"
    by (simp_all add: stale_page_def)
  have d: "timerFires t stale_page = None" for t
  proof (cases "t < 2")
    case True
    then have "t = 0 \<or> t = 1" by auto
    then show ?thesis by (auto simp add: timerFires_def stale_page_def)
  next
    case False
    then show ?thesis by (simp add: timerFires_def stale_page_def)
  qed
  from a b c d show ?thesis by blast
qed

end
